theory Spec2Isabelle
  imports Main
begin

section \<open>Errors\<close>

text \<open>
  The exceptions the sources throw, as values. Messages are left out: no caller in the
  repository inspects them.
  \<^item> \<open>TypeError\<close>: \<^verbatim>\<open>throw new TypeError(...)\<close>, and the platform's own TypeError
    (reading a property of \<^verbatim>\<open>null\<close>);
  \<^item> \<open>NamingError\<close>: \<^verbatim>\<open>new DOMException(..., 'SyntaxError')\<close> of \<^verbatim>\<open>mustKebabCase\<close>;
  \<^item> \<open>JsonSyntaxError\<close>: the SyntaxError of \<^verbatim>\<open>JSON.parse\<close>.
\<close>

datatype error = TypeError | NamingError | JsonSyntaxError

section \<open>util.ts: the name normalizer\<close>

text \<open>
  Strings are lists of code units below 256. \<^verbatim>\<open>[A-Z]\<close> and \<^verbatim>\<open>[a-z]\<close> are the
  ASCII ranges of the regular expression.
\<close>

definition isUpperAZ :: "char \<Rightarrow> bool" where
  "isUpperAZ c = (65 \<le> (of_char c :: nat) \<and> (of_char c :: nat) \<le> 90)"

definition isLowerAZ :: "char \<Rightarrow> bool" where
  "isLowerAZ c = (97 \<le> (of_char c :: nat) \<and> (of_char c :: nat) \<le> 122)"

text \<open>
  \<^verbatim>\<open>String.prototype.toLowerCase\<close> on one code unit below 256: the ASCII capitals and
  the Latin-1 capitals (0xC0 to 0xDE without the multiplication sign 0xD7) move up by 32.
\<close>

definition toLowerChar :: "char \<Rightarrow> char" where
  "toLowerChar c =
     (let n = (of_char c :: nat)
      in if (65 \<le> n \<and> n \<le> 90) \<or> (192 \<le> n \<and> n \<le> 222 \<and> n \<noteq> 215)
         then char_of (n + 32) else c)"

definition toLowerCase :: "string \<Rightarrow> string" where
  "toLowerCase s = map toLowerChar s"

text \<open>
  \<^verbatim>\<open>.replace(/([A-Z]($|[a-z]))/g, '-$1')\<close>: the scan goes left to right; at a capital
  that is the last code unit the match is that capital, at a capital followed by a
  lower-case letter the match is both, and the scan resumes behind the match.
\<close>

fun replaceBoundary :: "string \<Rightarrow> string" where
  "replaceBoundary [] = []"
| "replaceBoundary [c] = (if isUpperAZ c then [CHR ''-'', c] else [c])"
| "replaceBoundary (c # d # cs) =
     (if isUpperAZ c \<and> isLowerAZ d then CHR ''-'' # c # d # replaceBoundary cs
      else c # replaceBoundary (d # cs))"

text \<open>\<^verbatim>\<open>.replace(/--/g, '-')\<close>: one pass, the matches do not overlap.\<close>

fun replaceDouble :: "string \<Rightarrow> string" where
  "replaceDouble [] = []"
| "replaceDouble [c] = [c]"
| "replaceDouble (c # d # cs) =
     (if c = CHR ''-'' \<and> d = CHR ''-'' then CHR ''-'' # replaceDouble cs
      else c # replaceDouble (d # cs))"

text \<open>
  \<^verbatim>\<open>.replace(/^-|-$/, '')\<close>: no \<^verbatim>\<open>g\<close> flag, so only the leftmost match goes: a leading
  separator if there is one, otherwise a trailing one.
\<close>

definition replaceEdge :: "string \<Rightarrow> string" where
  "replaceEdge s =
     (if s \<noteq> [] \<and> hd s = CHR ''-'' then tl s
      else if s \<noteq> [] \<and> last s = CHR ''-'' then butlast s
      else s)"

definition toKebabCase :: "string \<Rightarrow> string" where
  "toKebabCase key = toLowerCase (replaceEdge (replaceDouble (replaceBoundary key)))"

definition mustKebabCase :: "string \<Rightarrow> error + string" where
  "mustKebabCase key =
     (let kebabCase = toKebabCase key
      in if CHR ''-'' \<notin> set kebabCase then Inl NamingError else Inr kebabCase)"

subsection \<open>The normalizer, by position\<close>

text \<open>
  Two descriptions of the first replacement by the positions where a separator goes.
  \<open>atBoundary\<close> is what the regular expression matches: a capital that is directly
  followed by the end of the string or by a lower-case letter. \<open>beforeRun\<close> follows
  the words of the specification: the first letter of a maximal run of capitals (no
  capital stands before it: the run counted from the position before is empty), when
  that run is followed by the end of the string or by a lower-case letter.
\<close>

definition insertWhere :: "(nat \<Rightarrow> bool) \<Rightarrow> string \<Rightarrow> string" where
  "insertWhere P s =
     concat (map (\<lambda>i. if P i then [CHR ''-'', s ! i] else [s ! i]) [0..<length s])"

definition atBoundary :: "string \<Rightarrow> nat \<Rightarrow> bool" where
  "atBoundary s i =
     (i < length s \<and> isUpperAZ (s ! i) \<and> (Suc i = length s \<or> isLowerAZ (s ! Suc i)))"

definition runLength :: "string \<Rightarrow> nat \<Rightarrow> nat" where
  "runLength s i = length (takeWhile isUpperAZ (drop i s))"

definition beforeRun :: "string \<Rightarrow> nat \<Rightarrow> bool" where
  "beforeRun s i =
     (i < length s \<and> isUpperAZ (s ! i) \<and> (i = 0 \<or> runLength s (i - 1) = 0) \<and>
      (i + runLength s i = length s \<or> isLowerAZ (s ! (i + runLength s i))))"

text \<open>
  The normalizer as the specification words it; the three later steps are the code's.
\<close>

definition spec_toKebabCase :: "string \<Rightarrow> string" where
  "spec_toKebabCase key =
     toLowerCase (replaceEdge (replaceDouble (insertWhere (beforeRun key) key)))"

section \<open>JavaScript values\<close>

text \<open>
  The values a declaration can carry and an accessor can return. Numbers are the
  integers, written in decimal as JavaScript writes an integer below ten to the 21, and
  \<open>NaN\<close>; a fraction, a negative zero and the infinities are not in this model, nor
  are functions, symbols and bigints. An object is the list of its own
  properties in the order JavaScript enumerates them.
\<close>

datatype js_value =
    JUndefined
  | JNull
  | JBool bool
  | JNum int
  | JNaN
  | JStr string
  | JArr "js_value list"
  | JObj "(string \<times> js_value) list"

fun typeof :: "js_value \<Rightarrow> string" where
  "typeof JUndefined = ''undefined''"
| "typeof JNull = ''object''"
| "typeof (JBool b) = ''boolean''"
| "typeof (JNum n) = ''number''"
| "typeof JNaN = ''number''"
| "typeof (JStr s) = ''string''"
| "typeof (JArr xs) = ''object''"
| "typeof (JObj kvs) = ''object''"

fun isArray :: "js_value \<Rightarrow> bool" where
  "isArray (JArr xs) = True"
| "isArray v = False"

text \<open>ToBoolean: the falsy values are undefined, null, false, 0, NaN and the empty string.\<close>

fun truthy :: "js_value \<Rightarrow> bool" where
  "truthy JUndefined = False"
| "truthy JNull = False"
| "truthy (JBool b) = b"
| "truthy (JNum n) = (n \<noteq> 0)"
| "truthy JNaN = False"
| "truthy (JStr s) = (s \<noteq> [])"
| "truthy (JArr xs) = True"
| "truthy (JObj kvs) = True"

text \<open>The operator \<^verbatim>\<open>a || b\<close>.\<close>

definition orElse :: "js_value \<Rightarrow> js_value \<Rightarrow> js_value" where
  "orElse a b = (if truthy a then a else b)"

subsection \<open>Decimal text\<close>

definition digitChar :: "nat \<Rightarrow> char" where
  "digitChar d = char_of (48 + d)"

definition isDigit :: "char \<Rightarrow> bool" where
  "isDigit c = (48 \<le> (of_char c :: nat) \<and> (of_char c :: nat) \<le> 57)"

definition digitVal :: "char \<Rightarrow> nat" where
  "digitVal c = of_char c - 48"

function showNat :: "nat \<Rightarrow> string" where
  "showNat n = (if n < 10 then [digitChar n] else showNat (n div 10) @ [digitChar (n mod 10)])"
  by pat_completeness auto
termination
  by (relation "measure id") auto

declare showNat.simps [simp del]

definition showInt :: "int \<Rightarrow> string" where
  "showInt i = (if i < 0 then CHR ''-'' # showNat (nat (- i)) else showNat (nat i))"

definition readNat :: "string \<Rightarrow> nat" where
  "readNat ds = foldl (\<lambda>a c. 10 * a + digitVal c) 0 ds"

definition allDigits :: "string \<Rightarrow> bool" where
  "allDigits ds = (ds \<noteq> [] \<and> list_all isDigit ds)"

subsection \<open>ToString and ToNumber\<close>

fun joinWith :: "string \<Rightarrow> string list \<Rightarrow> string" where
  "joinWith sep [] = []"
| "joinWith sep [x] = x"
| "joinWith sep (x # y # ys) = x @ sep @ joinWith sep (y # ys)"

text \<open>
  ToString, which \<^verbatim>\<open>setAttribute\<close> applies to its value argument. An array is its
  elements joined by commas, where null and undefined elements give the empty string.
\<close>

fun ToString :: "js_value \<Rightarrow> string" where
  "ToString JUndefined = ''undefined''"
| "ToString JNull = ''null''"
| "ToString (JBool b) = (if b then ''true'' else ''false'')"
| "ToString (JNum n) = showInt n"
| "ToString JNaN = ''NaN''"
| "ToString (JStr s) = s"
| "ToString (JArr xs) =
     joinWith '','' (map (\<lambda>x. if x = JUndefined \<or> x = JNull then [] else ToString x) xs)"
| "ToString (JObj kvs) = ''[object Object]''"

text \<open>
  The white space that StringToNumber trims, among the code units below 256: tab, line
  feed, vertical tab, form feed, carriage return, space and the no-break space.
\<close>

definition isStrWhiteSpace :: "char \<Rightarrow> bool" where
  "isStrWhiteSpace c = ((of_char c :: nat) \<in> {9, 10, 11, 12, 13, 32, 160})"

definition trim :: "string \<Rightarrow> string" where
  "trim s = rev (dropWhile isStrWhiteSpace (rev (dropWhile isStrWhiteSpace s)))"

text \<open>
  StringToNumber on the texts of this model: white space alone is 0, an optionally
  signed run of decimal digits is that integer, every other text is read as \<open>NaN\<close>.
  A text with a fraction, an exponent, a radix prefix or \<^verbatim>\<open>Infinity\<close> names a number
  that the model does not hold; no property below rests on how such a text is read.
\<close>

definition StringToNumber :: "string \<Rightarrow> js_value" where
  "StringToNumber s =
     (let t = trim s
      in if t = [] then JNum 0
         else if allDigits t then JNum (int (readNat t))
         else if hd t = CHR ''+'' \<and> allDigits (tl t) then JNum (int (readNat (tl t)))
         else if hd t = CHR ''-'' \<and> allDigits (tl t) then JNum (- int (readNat (tl t)))
         else JNaN)"

text \<open>\<^verbatim>\<open>Number(v)\<close>, the conversion ToNumber.\<close>

fun Number :: "js_value \<Rightarrow> js_value" where
  "Number JUndefined = JNaN"
| "Number JNull = JNum 0"
| "Number (JBool b) = JNum (if b then 1 else 0)"
| "Number (JNum n) = JNum n"
| "Number JNaN = JNaN"
| "Number (JStr s) = StringToNumber s"
| "Number (JArr xs) = StringToNumber (ToString (JArr xs))"
| "Number (JObj kvs) = JNaN"

section \<open>The element's attribute store\<close>

text \<open>
  The attribute interface of the element, a store from names to texts:
  \<^verbatim>\<open>getAttribute\<close> returns null for an absent attribute; \<^verbatim>\<open>setAttribute\<close> stores the
  ToString of its argument; \<^verbatim>\<open>toggleAttribute(name, force)\<close> adds the attribute with
  the empty text when \<open>force\<close> is truthy and the attribute is absent, removes it when
  \<open>force\<close> is falsy, and flips presence when \<open>force\<close> is undefined.
\<close>

type_synonym attrs = "string \<rightharpoonup> string"

definition hasAttribute :: "attrs \<Rightarrow> string \<Rightarrow> bool" where
  "hasAttribute this name = (this name \<noteq> None)"

definition getAttribute :: "attrs \<Rightarrow> string \<Rightarrow> js_value" where
  "getAttribute this name = (case this name of None \<Rightarrow> JNull | Some t \<Rightarrow> JStr t)"

definition setAttribute :: "attrs \<Rightarrow> string \<Rightarrow> js_value \<Rightarrow> attrs" where
  "setAttribute this name v = this(name \<mapsto> ToString v)"

definition removeAttribute :: "attrs \<Rightarrow> string \<Rightarrow> attrs" where
  "removeAttribute this name = this(name := None)"

definition toggleAttribute :: "attrs \<Rightarrow> string \<Rightarrow> js_value \<Rightarrow> attrs" where
  "toggleAttribute this name force =
     (if force = JUndefined
      then (if hasAttribute this name then removeAttribute this name else this(name \<mapsto> []))
      else if truthy force
      then (if hasAttribute this name then this else this(name \<mapsto> []))
      else removeAttribute this name)"

section \<open>JSON\<close>

subsection \<open>\<^verbatim>\<open>JSON.stringify\<close>\<close>

definition hexDigit :: "nat \<Rightarrow> char" where
  "hexDigit d = (if d < 10 then char_of (48 + d) else char_of (87 + d))"

text \<open>
  QuoteJSONString on one code unit: the quote and the backslash are escaped, the control
  characters have their short escapes or \<^verbatim>\<open>\u00xx\<close> in lower-case hexadecimal.
\<close>

definition quoteChar :: "char \<Rightarrow> string" where
  "quoteChar c =
     (let n = (of_char c :: nat)
      in if n = 34 then [CHR 0x5C, CHR 0x22]
         else if n = 92 then [CHR 0x5C, CHR 0x5C]
         else if n = 8 then [CHR 0x5C, CHR ''b'']
         else if n = 9 then [CHR 0x5C, CHR ''t'']
         else if n = 10 then [CHR 0x5C, CHR ''n'']
         else if n = 12 then [CHR 0x5C, CHR ''f'']
         else if n = 13 then [CHR 0x5C, CHR ''r'']
         else if n < 32
           then [CHR 0x5C, CHR ''u'', CHR ''0'', CHR ''0'', hexDigit (n div 16), hexDigit (n mod 16)]
         else [c])"

definition quoteJSON :: "string \<Rightarrow> string" where
  "quoteJSON s = CHR 0x22 # concat (map quoteChar s) @ [CHR 0x22]"

text \<open>
  SerializeJSONProperty without indentation; \<open>None\<close> is the result undefined. In an
  array an element without a serialization is written \<^verbatim>\<open>null\<close>; in an object such a
  property is left out. \<open>NaN\<close> is written \<^verbatim>\<open>null\<close>.
\<close>

fun stringifyValue :: "js_value \<Rightarrow> string option" where
  "stringifyValue JUndefined = None"
| "stringifyValue JNull = Some ''null''"
| "stringifyValue (JBool b) = Some (if b then ''true'' else ''false'')"
| "stringifyValue (JNum n) = Some (showInt n)"
| "stringifyValue JNaN = Some ''null''"
| "stringifyValue (JStr s) = Some (quoteJSON s)"
| "stringifyValue (JArr xs) =
     Some (CHR ''['' #
           joinWith '','' (map (\<lambda>x. case stringifyValue x of None \<Rightarrow> ''null'' | Some t \<Rightarrow> t) xs)
           @ '']'')"
| "stringifyValue (JObj kvs) =
     Some (CHR ''{'' #
           joinWith '',''
             (concat (map (\<lambda>kv. case stringifyValue (snd kv) of
                                   None \<Rightarrow> []
                                 | Some t \<Rightarrow> [quoteJSON (fst kv) @ '':'' @ t]) kvs))
           @ ''}'')"

definition JSON_stringify :: "js_value \<Rightarrow> js_value" where
  "JSON_stringify v = (case stringifyValue v of None \<Rightarrow> JUndefined | Some t \<Rightarrow> JStr t)"

subsection \<open>\<^verbatim>\<open>JSON.parse\<close>\<close>

text \<open>
  A recursive-descent reader of the JSON grammar. Two parts of the grammar are outside
  the model and are rejected: a number with a fraction or an exponent, and a
  \<^verbatim>\<open>\u\<close> escape of a code unit above 00ff.
\<close>

definition isJsonWs :: "char \<Rightarrow> bool" where
  "isJsonWs c = ((of_char c :: nat) \<in> {9, 10, 13, 32})"

definition skipWs :: "string \<Rightarrow> string" where
  "skipWs s = dropWhile isJsonWs s"

definition stripPrefix :: "string \<Rightarrow> string \<Rightarrow> string option" where
  "stripPrefix p s = (if take (length p) s = p then Some (drop (length p) s) else None)"

definition hexVal :: "char \<Rightarrow> nat option" where
  "hexVal c =
     (let n = (of_char c :: nat)
      in if 48 \<le> n \<and> n \<le> 57 then Some (n - 48)
         else if 97 \<le> n \<and> n \<le> 102 then Some (n - 87)
         else if 65 \<le> n \<and> n \<le> 70 then Some (n - 55)
         else None)"

definition hex4 :: "char \<Rightarrow> char \<Rightarrow> char \<Rightarrow> char \<Rightarrow> nat option" where
  "hex4 a b c d =
     (case (hexVal a, hexVal b, hexVal c, hexVal d) of
        (Some w, Some x, Some y, Some z) \<Rightarrow> Some (4096 * w + 256 * x + 16 * y + z)
      | _ \<Rightarrow> None)"

definition simpleEscape :: "char \<Rightarrow> char option" where
  "simpleEscape e =
     (if e = CHR 0x22 then Some (CHR 0x22)
      else if e = CHR 0x5C then Some (CHR 0x5C)
      else if e = CHR ''/'' then Some (CHR ''/'')
      else if e = CHR ''b'' then Some (CHR 0x08)
      else if e = CHR ''f'' then Some (CHR 0x0C)
      else if e = CHR ''n'' then Some (CHR 0x0A)
      else if e = CHR ''r'' then Some (CHR 0x0D)
      else if e = CHR ''t'' then Some (CHR 0x09)
      else None)"

definition consChar :: "char \<Rightarrow> (string \<times> string) option \<Rightarrow> (string \<times> string) option" where
  "consChar c res = (case res of None \<Rightarrow> None | Some (s, r) \<Rightarrow> Some (c # s, r))"

text \<open>The characters of a string behind its opening quote, up to the closing quote.\<close>

fun parseChars :: "string \<Rightarrow> (string \<times> string) option" where
  "parseChars [] = None"
| "parseChars (c # cs) =
     (if c = CHR 0x22 then Some ([], cs)
      else if c = CHR 0x5C then
        (case cs of
           [] \<Rightarrow> None
         | e # r \<Rightarrow>
             if e = CHR ''u'' then
               (case r of
                  h1 # h2 # h3 # h4 # r' \<Rightarrow>
                    (case hex4 h1 h2 h3 h4 of
                       None \<Rightarrow> None
                     | Some n \<Rightarrow> if n < 256 then consChar (char_of n) (parseChars r') else None)
                | _ \<Rightarrow> None)
             else
               (case simpleEscape e of
                  None \<Rightarrow> None
                | Some ch \<Rightarrow> consChar ch (parseChars r)))
      else if (of_char c :: nat) < 32 then None
      else consChar c (parseChars cs))"

text \<open>
  A number: an optional minus sign and the integer part, which has no leading zero.
\<close>

definition parseNumber :: "string \<Rightarrow> (js_value \<times> string) option" where
  "parseNumber s =
     (let neg = (s \<noteq> [] \<and> hd s = CHR ''-'');
          t = (if neg then tl s else s);
          ds = takeWhile isDigit t;
          r = dropWhile isDigit t
      in if ds = [] then None
         else if 1 < length ds \<and> hd ds = CHR ''0'' then None
         else if r \<noteq> [] \<and> hd r \<in> {CHR ''.'', CHR ''e'', CHR ''E''} then None
         else Some (JNum (if neg then - int (readNat ds) else int (readNat ds)), r))"

text \<open>
  Creating a property on an object under construction: a key that is there keeps its
  place and takes the new value; a new key that is an array index goes among the index
  keys in ascending order, which come first; any other new key goes to the end.
\<close>

definition arrayIndex :: "string \<Rightarrow> bool" where
  "arrayIndex k = (allDigits k \<and> (k = ''0'' \<or> hd k \<noteq> CHR ''0'') \<and> int (readNat k) < 4294967295)"

fun insertIndexed :: "string \<Rightarrow> js_value \<Rightarrow> (string \<times> js_value) list \<Rightarrow> (string \<times> js_value) list" where
  "insertIndexed k v [] = [(k, v)]"
| "insertIndexed k v (p # ps) =
     (if arrayIndex (fst p) \<and> readNat (fst p) < readNat k then p # insertIndexed k v ps
      else (k, v) # p # ps)"

definition defineProp :: "(string \<times> js_value) list \<Rightarrow> string \<times> js_value \<Rightarrow> (string \<times> js_value) list" where
  "defineProp obj kv =
     (if fst kv \<in> fst ` set obj then map (\<lambda>p. if fst p = fst kv then kv else p) obj
      else if arrayIndex (fst kv) then insertIndexed (fst kv) (snd kv) obj
      else obj @ [kv])"

definition buildObject :: "(string \<times> js_value) list \<Rightarrow> (string \<times> js_value) list" where
  "buildObject kvs = foldl defineProp [] kvs"

text \<open>
  The reader takes fuel, one unit for each value, element and member it starts.
  \<open>JSON_parse\<close> gives a text one unit more than it has code units. That no text runs
  out of this fuel is proved below: more fuel never changes the result.
\<close>

fun parseValue :: "nat \<Rightarrow> string \<Rightarrow> (js_value \<times> string) option"
  and parseElements :: "nat \<Rightarrow> string \<Rightarrow> (js_value list \<times> string) option"
  and parseMembers :: "nat \<Rightarrow> string \<Rightarrow> ((string \<times> js_value) list \<times> string) option" where
  "parseValue 0 s = None"
| "parseValue (Suc n) s =
     (case skipWs s of
        [] \<Rightarrow> None
      | c # r \<Rightarrow>
          if c = CHR ''n'' then map_option (Pair JNull) (stripPrefix ''ull'' r)
          else if c = CHR ''t'' then map_option (Pair (JBool True)) (stripPrefix ''rue'' r)
          else if c = CHR ''f'' then map_option (Pair (JBool False)) (stripPrefix ''alse'' r)
          else if c = CHR 0x22 then map_option (\<lambda>(str, r'). (JStr str, r')) (parseChars r)
          else if c = CHR ''['' then
            (case skipWs r of
               [] \<Rightarrow> None
             | d # r' \<Rightarrow>
                 if d = CHR '']'' then Some (JArr [], r')
                 else map_option (\<lambda>(vs, r''). (JArr vs, r'')) (parseElements n r))
          else if c = CHR ''{'' then
            (case skipWs r of
               [] \<Rightarrow> None
             | d # r' \<Rightarrow>
                 if d = CHR ''}'' then Some (JObj [], r')
                 else map_option (\<lambda>(kvs, r''). (JObj (buildObject kvs), r'')) (parseMembers n r))
          else if c = CHR ''-'' \<or> isDigit c then parseNumber (c # r)
          else None)"
| "parseElements 0 s = None"
| "parseElements (Suc n) s =
     (case parseValue n s of
        None \<Rightarrow> None
      | Some (v, r) \<Rightarrow>
          (case skipWs r of
             [] \<Rightarrow> None
           | c # r' \<Rightarrow>
               if c = CHR '','' then map_option (\<lambda>(vs, r''). (v # vs, r'')) (parseElements n r')
               else if c = CHR '']'' then Some ([v], r')
               else None))"
| "parseMembers 0 s = None"
| "parseMembers (Suc n) s =
     (case skipWs s of
        [] \<Rightarrow> None
      | q # r \<Rightarrow>
          if q \<noteq> CHR 0x22 then None
          else
            (case parseChars r of
               None \<Rightarrow> None
             | Some (k, r1) \<Rightarrow>
                 (case skipWs r1 of
                    [] \<Rightarrow> None
                  | colon # r2 \<Rightarrow>
                      if colon \<noteq> CHR '':'' then None
                      else
                        (case parseValue n r2 of
                           None \<Rightarrow> None
                         | Some (v, r3) \<Rightarrow>
                             (case skipWs r3 of
                                [] \<Rightarrow> None
                              | c # r4 \<Rightarrow>
                                  if c = CHR '','' then
                                    map_option (\<lambda>(kvs, r5). ((k, v) # kvs, r5)) (parseMembers n r4)
                                  else if c = CHR ''}'' then Some ([(k, v)], r4)
                                  else None)))))"

definition JSON_parse :: "string \<Rightarrow> error + js_value" where
  "JSON_parse text =
     (case parseValue (Suc (length text)) text of
        None \<Rightarrow> Inl JsonSyntaxError
      | Some (v, r) \<Rightarrow> if skipWs r = [] then Inr v else Inl JsonSyntaxError)"

section \<open>The five property descriptors\<close>

text \<open>
  A property descriptor is its \<^verbatim>\<open>get\<close> and \<^verbatim>\<open>set\<close> functions. Both are called with
  the component as \<^verbatim>\<open>this\<close> and use nothing of it but its attribute interface, so
  they are functions of the attribute store.
\<close>

record descriptor =
  configurable :: bool
  desc_get :: "attrs \<Rightarrow> error + js_value"
  desc_set :: "js_value \<Rightarrow> attrs \<Rightarrow> attrs"

definition numberDescriptor :: "string \<Rightarrow> descriptor" where
  "numberDescriptor parameterized =
     \<lparr> configurable = True,
       desc_get = (\<lambda>this. Inr (Number (orElse (getAttribute this parameterized) (JNum 0)))),
       desc_set = (\<lambda>fresh this. setAttribute this parameterized fresh) \<rparr>"

definition booleanDescriptor :: "string \<Rightarrow> descriptor" where
  "booleanDescriptor parameterized =
     \<lparr> configurable = True,
       desc_get = (\<lambda>this. Inr (JBool (hasAttribute this parameterized))),
       desc_set = (\<lambda>fresh this. toggleAttribute this parameterized fresh) \<rparr>"

definition stringDescriptor :: "string \<Rightarrow> descriptor" where
  "stringDescriptor parameterized =
     \<lparr> configurable = True,
       desc_get = (\<lambda>this. Inr (orElse (getAttribute this parameterized) (JStr []))),
       desc_set = (\<lambda>fresh this. setAttribute this parameterized (orElse fresh (JStr []))) \<rparr>"

definition arrayDescriptor :: "string \<Rightarrow> descriptor" where
  "arrayDescriptor parameterized =
     \<lparr> configurable = True,
       desc_get = (\<lambda>this.
          case JSON_parse (ToString (orElse (getAttribute this parameterized) (JStr ''[]''))) of
            Inl e \<Rightarrow> Inl e
          | Inr v \<Rightarrow>
              if v = JNull \<or> typeof v \<noteq> ''object'' \<or> \<not> isArray v then Inl TypeError
              else Inr v),
       desc_set = (\<lambda>fresh this.
          setAttribute this parameterized (JSON_stringify (orElse fresh (JArr [])))) \<rparr>"

definition objectDescriptor :: "string \<Rightarrow> descriptor" where
  "objectDescriptor parameterized =
     \<lparr> configurable = True,
       desc_get = (\<lambda>this.
          case JSON_parse (ToString (orElse (getAttribute this parameterized) (JStr ''{}''))) of
            Inl e \<Rightarrow> Inl e
          | Inr v \<Rightarrow>
              if v = JNull \<or> typeof v \<noteq> ''object'' \<or> isArray v then Inl TypeError
              else Inr v),
       desc_set = (\<lambda>fresh this.
          setAttribute this parameterized (JSON_stringify (orElse fresh (JObj [])))) \<rparr>"

section \<open>The component and the binder\<close>

text \<open>
  The component as the binder sees it: the attribute store of the element, the own
  properties of the instance, and what the class author put on the prototype. An author's
  accessor pair is the one of the repository's tests: the setter stores into a private
  field, the getter returns that field. Every call of either is recorded in \<open>calls\<close>,
  which nothing else writes.
\<close>

datatype property = Accessor descriptor | DataProperty js_value

datatype call = GetterCall string | SetterCall string js_value

record component =
  attributes :: attrs
  ownProperties :: "string \<rightharpoonup> property"
  authorAccessors :: "string set"
  privateFields :: "string \<rightharpoonup> js_value"
  calls :: "call list"

text \<open>\<^verbatim>\<open>Object.defineProperty(component, name, descriptor)\<close>: an own accessor property.\<close>

definition defineProperty :: "component \<Rightarrow> string \<Rightarrow> descriptor \<Rightarrow> component" where
  "defineProperty c name d = c\<lparr>ownProperties := (ownProperties c)(name \<mapsto> Accessor d)\<rparr>"

text \<open>\<^verbatim>\<open>name in component\<close>: an own property, or one found on the prototype.\<close>

definition inOperator :: "string \<Rightarrow> component \<Rightarrow> bool" where
  "inOperator name c = (name \<in> dom (ownProperties c) \<or> name \<in> authorAccessors c)"

text \<open>
  The author's pair, as in the test class: the getter returns the private field, the
  setter stores into it, and each records its call.
\<close>

definition authorGet :: "string \<Rightarrow> component \<Rightarrow> (error + js_value) \<times> component" where
  "authorGet name c =
     (Inr (case privateFields c name of None \<Rightarrow> JUndefined | Some v \<Rightarrow> v),
      c\<lparr>calls := calls c @ [GetterCall name]\<rparr>)"

definition authorSet :: "string \<Rightarrow> js_value \<Rightarrow> component \<Rightarrow> component" where
  "authorSet name v c =
     c\<lparr>privateFields := (privateFields c)(name \<mapsto> v), calls := calls c @ [SetterCall name v]\<rparr>"

text \<open>
  Reading \<^verbatim>\<open>component[name]\<close>: an own accessor runs its \<^verbatim>\<open>get\<close> on the component,
  an own data property gives its value; without an own property the prototype is
  searched, where an author's getter is called; otherwise the value is undefined.
\<close>

definition readProperty :: "component \<Rightarrow> string \<Rightarrow> (error + js_value) \<times> component" where
  "readProperty c name =
     (case ownProperties c name of
        Some (Accessor d) \<Rightarrow> (desc_get d (attributes c), c)
      | Some (DataProperty v) \<Rightarrow> (Inr v, c)
      | None \<Rightarrow>
          if name \<in> authorAccessors c then authorGet name c
          else (Inr JUndefined, c))"

text \<open>Writing \<^verbatim>\<open>component[name] = v\<close>, along the same search.\<close>

definition writeProperty :: "component \<Rightarrow> string \<Rightarrow> js_value \<Rightarrow> component" where
  "writeProperty c name v =
     (case ownProperties c name of
        Some (Accessor d) \<Rightarrow> c\<lparr>attributes := desc_set d v (attributes c)\<rparr>
      | Some (DataProperty w) \<Rightarrow> c\<lparr>ownProperties := (ownProperties c)(name \<mapsto> DataProperty v)\<rparr>
      | None \<Rightarrow>
          if name \<in> authorAccessors c then authorSet name v c
          else c\<lparr>ownProperties := (ownProperties c)(name \<mapsto> DataProperty v)\<rparr>)"

definition setterCalls :: "component \<Rightarrow> string \<Rightarrow> nat" where
  "setterCalls c name = length (filter (\<lambda>x. case x of SetterCall n v \<Rightarrow> n = name | GetterCall n \<Rightarrow> False) (calls c))"

definition getterCalls :: "component \<Rightarrow> string \<Rightarrow> nat" where
  "getterCalls c name = length (filter (\<lambda>x. case x of GetterCall n \<Rightarrow> n = name | SetterCall n v \<Rightarrow> False) (calls c))"

subsection \<open>util.ts: \<^verbatim>\<open>getAccessor\<close>\<close>

text \<open>
  The walk from the instance along its prototypes to the first object with an own
  descriptor for the key: the own properties of the instance first, then the prototype
  with the author's pairs. A descriptor without \<^verbatim>\<open>get\<close> or \<^verbatim>\<open>set\<close>, and no descriptor
  at all, give the function that returns undefined. The functions are returned unbound;
  the model passes the component they are called on.
\<close>

record accessor =
  getter :: "component \<Rightarrow> (error + js_value) \<times> component"
  setter :: "js_value \<Rightarrow> component \<Rightarrow> component"

definition getAccessor :: "component \<Rightarrow> string \<Rightarrow> accessor" where
  "getAccessor instance key =
     (case ownProperties instance key of
        Some (Accessor d) \<Rightarrow>
          \<lparr> getter = (\<lambda>this. (desc_get d (attributes this), this)),
            setter = (\<lambda>v this. this\<lparr>attributes := desc_set d v (attributes this)\<rparr>) \<rparr>
      | Some (DataProperty w) \<Rightarrow>
          \<lparr> getter = (\<lambda>this. (Inr JUndefined, this)), setter = (\<lambda>v this. this) \<rparr>
      | None \<Rightarrow>
          if key \<in> authorAccessors instance
          then \<lparr> getter = authorGet key, setter = authorSet key \<rparr>
          else \<lparr> getter = (\<lambda>this. (Inr JUndefined, this)), setter = (\<lambda>v this. this) \<rparr>)"

subsection \<open>The declaration registry\<close>

text \<open>
  Modelled from the spec: the declaration registry of \<^verbatim>\<open>registry.js\<close>, which is not
  among the sources. The specification gives it as the ordered collection of
  (name, initial value) pairs of one class, with \<^verbatim>\<open>register\<close> appending a pair and
  \<^verbatim>\<open>allDeclarationsFor\<close> returning the pairs in order. The metadata object of a class
  is identified with its registry.
\<close>

type_synonym registry = "(string \<times> js_value) list"

definition registry_push :: "registry \<Rightarrow> string \<Rightarrow> js_value \<Rightarrow> registry" where
  "registry_push r name v = r @ [(name, v)]"

definition registry_all :: "registry \<Rightarrow> (string \<times> js_value) list" where
  "registry_all r = r"

subsection \<open>\<^verbatim>\<open>initializeAttributable\<close>\<close>

text \<open>
  The choice of the descriptor by the runtime type of the initial value, in the order of
  the source; \<open>None\<close> is the descriptor left undefined.
\<close>

definition selectDescriptor :: "js_value \<Rightarrow> string \<Rightarrow> descriptor option" where
  "selectDescriptor v parameterized =
     (if typeof v = ''number'' then Some (numberDescriptor parameterized)
      else if typeof v = ''boolean'' then Some (booleanDescriptor parameterized)
      else if typeof v = ''string'' then Some (stringDescriptor parameterized)
      else if typeof v = ''object'' \<and> isArray v then Some (arrayDescriptor parameterized)
      else if typeof v = ''object'' \<and> \<not> isArray v then Some (objectDescriptor parameterized)
      else None)"

text \<open>
  The body of the loop for one declaration. \<^verbatim>\<open>mustParameterize\<close> of
  \<^verbatim>\<open>parameterize.js\<close> is not among the sources and is a parameter. A thrown error comes
  with the component as it is at the throw.
\<close>

definition bindDeclaration ::
  "(string \<Rightarrow> error + string) \<Rightarrow> string \<times> js_value \<Rightarrow> component \<Rightarrow> error option \<times> component" where
  "bindDeclaration mustParameterize decl c =
     (case mustParameterize (fst decl) of
        Inl e \<Rightarrow> (Some e, c)
      | Inr parameterized \<Rightarrow>
          (case selectDescriptor (snd decl) parameterized of
             None \<Rightarrow> (Some TypeError, c)
           | Some d \<Rightarrow>
               (let c' = defineProperty c (fst decl) d
                in if inOperator (fst decl) c' \<and> \<not> hasAttribute (attributes c') parameterized
                   then (None, c'\<lparr>attributes := desc_set d (snd decl) (attributes c')\<rparr>)
                   else (None, c'))))"

fun bindAll ::
  "(string \<Rightarrow> error + string) \<Rightarrow> (string \<times> js_value) list \<Rightarrow> component \<Rightarrow> error option \<times> component" where
  "bindAll mustParameterize [] c = (None, c)"
| "bindAll mustParameterize (decl # decls) c =
     (case bindDeclaration mustParameterize decl c of
        (Some e, c') \<Rightarrow> (Some e, c')
      | (None, c') \<Rightarrow> bindAll mustParameterize decls c')"

definition initializeAttributable ::
  "(string \<Rightarrow> error + string) \<Rightarrow> component \<Rightarrow> registry \<Rightarrow> error option \<times> component" where
  "initializeAttributable mustParameterize c metadata =
     bindAll mustParameterize (registry_all metadata) c"

section \<open>The \<^verbatim>\<open>attribute\<close> decorator\<close>

text \<open>
  The five constructors that \<^verbatim>\<open>AttributeOptions.type\<close> admits, and what
  \<^verbatim>\<open>value.constructor\<close> evaluates to: reading a property of null or undefined throws,
  a primitive and an array have the constructor of their type, an object has its own
  \<^verbatim>\<open>constructor\<close> property when it has one and \<^verbatim>\<open>Object\<close> otherwise.
\<close>

datatype type_token =
  StringConstructor | NumberConstructor | BooleanConstructor | ArrayConstructor | ObjectConstructor

datatype constructor_value = Builtin type_token | OwnValue js_value

fun constructorOf :: "js_value \<Rightarrow> error + constructor_value" where
  "constructorOf JUndefined = Inl TypeError"
| "constructorOf JNull = Inl TypeError"
| "constructorOf (JBool b) = Inr (Builtin BooleanConstructor)"
| "constructorOf (JNum n) = Inr (Builtin NumberConstructor)"
| "constructorOf JNaN = Inr (Builtin NumberConstructor)"
| "constructorOf (JStr s) = Inr (Builtin StringConstructor)"
| "constructorOf (JArr xs) = Inr (Builtin ArrayConstructor)"
| "constructorOf (JObj kvs) =
     (case map_of kvs ''constructor'' of
        None \<Rightarrow> Inr (Builtin ObjectConstructor)
      | Some v \<Rightarrow> Inr (OwnValue v))"

text \<open>\<^verbatim>\<open>new options.type().valueOf()\<close>.\<close>

fun newValueOf :: "type_token \<Rightarrow> js_value" where
  "newValueOf StringConstructor = JStr []"
| "newValueOf NumberConstructor = JNum 0"
| "newValueOf BooleanConstructor = JBool False"
| "newValueOf ArrayConstructor = JArr []"
| "newValueOf ObjectConstructor = JObj []"

text \<open>The operator \<^verbatim>\<open>a ?? b\<close>.\<close>

definition nullish :: "js_value \<Rightarrow> js_value \<Rightarrow> js_value" where
  "nullish a b = (if a = JUndefined \<or> a = JNull then b else a)"

record AttributeOptions =
  options_type :: type_token

record ClassFieldDecoratorContext =
  context_kind :: string
  context_name :: string

text \<open>
  The function that \<^verbatim>\<open>attribute(options)(_, context)\<close> returns for a field: it takes
  the initial value of the field and works on the registry of the class.
\<close>

definition fieldInitializer ::
  "AttributeOptions \<Rightarrow> ClassFieldDecoratorContext \<Rightarrow> js_value \<Rightarrow> registry \<Rightarrow> error option \<times> registry" where
  "fieldInitializer options context v metadata =
     (if v \<noteq> JUndefined \<and> constructorOf v \<noteq> Inr (Builtin (options_type options))
      then (Some TypeError, metadata)
      else (None, registry_push metadata (context_name context) (nullish v (newValueOf (options_type options)))))"

text \<open>
  \<^verbatim>\<open>attribute(options)\<close> applied to a decoration target: it throws at once when the
  target is not a field and returns the initializer otherwise.
\<close>

definition attribute ::
  "AttributeOptions \<Rightarrow> ClassFieldDecoratorContext
     \<Rightarrow> error + (js_value \<Rightarrow> registry \<Rightarrow> error option \<times> registry)" where
  "attribute options context =
     (if context_kind context \<noteq> ''field'' then Inl TypeError
      else Inr (fieldInitializer options context))"

subsection \<open>Class definition and construction\<close>

text \<open>
  How the language runs a field decorator. When the class is defined, the decorator is
  applied to the context of each decorated field, in order, and what it returns becomes
  the initializer of that field; a throw ends the definition. When an instance is
  constructed, the initializers run in order, each on the initial value of its field; a
  throw ends the construction.
\<close>

type_synonym initializer = "js_value \<Rightarrow> registry \<Rightarrow> error option \<times> registry"

fun defineClass ::
  "(AttributeOptions \<times> ClassFieldDecoratorContext \<times> js_value) list
     \<Rightarrow> error + (initializer \<times> js_value) list" where
  "defineClass [] = Inr []"
| "defineClass ((options, context, v) # rest) =
     (case attribute options context of
        Inl e \<Rightarrow> Inl e
      | Inr init \<Rightarrow>
          (case defineClass rest of
             Inl e \<Rightarrow> Inl e
           | Inr inits \<Rightarrow> Inr ((init, v) # inits)))"

fun constructInstance :: "(initializer \<times> js_value) list \<Rightarrow> registry \<Rightarrow> error option \<times> registry" where
  "constructInstance [] metadata = (None, metadata)"
| "constructInstance ((init, v) # inits) metadata =
     (case init v metadata of
        (Some e, metadata') \<Rightarrow> (Some e, metadata')
      | (None, metadata') \<Rightarrow> constructInstance inits metadata')"

definition numberField :: "string \<Rightarrow> js_value \<Rightarrow> AttributeOptions \<times> ClassFieldDecoratorContext \<times> js_value" where
  "numberField nm v =
     (\<lparr>options_type = NumberConstructor\<rparr>, \<lparr>context_kind = ''field'', context_name = nm\<rparr>, v)"

section \<open>The \<^verbatim>\<open>attributable\<close> decorator\<close>

text \<open>
  \<^verbatim>\<open>attributable()\<close> applied to a class: it throws when the target is not a class, and
  otherwise returns the subclass whose \<^verbatim>\<open>mountCallback\<close> runs the binder on the
  instance with the registry of the class and then the \<^verbatim>\<open>mountCallback\<close> of the
  decorated class, here the parameter \<open>superMount\<close>.
\<close>

definition attributable ::
  "(string \<Rightarrow> error + string) \<Rightarrow> string \<Rightarrow> registry \<Rightarrow> (component \<Rightarrow> error option \<times> component)
     \<Rightarrow> error + (component \<Rightarrow> error option \<times> component)" where
  "attributable mustParameterize contextKind metadata superMount =
     (if contextKind \<noteq> ''class'' then Inl TypeError
      else Inr (\<lambda>this.
             case initializeAttributable mustParameterize this metadata of
               (Some e, c) \<Rightarrow> (Some e, c)
             | (None, c) \<Rightarrow> superMount c))"

section \<open>Values that JSON represents\<close>

text \<open>
  The values that \<^verbatim>\<open>JSON.stringify\<close> writes without loss: null, booleans, integers,
  strings, and arrays and objects of such values. An object lists its properties in
  enumeration order when creating them one after the other gives the list back (which
  also says that no key occurs twice).
\<close>

fun jsonValue :: "js_value \<Rightarrow> bool" where
  "jsonValue JUndefined = False"
| "jsonValue JNull = True"
| "jsonValue (JBool b) = True"
| "jsonValue (JNum n) = True"
| "jsonValue JNaN = False"
| "jsonValue (JStr s) = True"
| "jsonValue (JArr xs) = list_all jsonValue xs"
| "jsonValue (JObj kvs) = (buildObject kvs = kvs \<and> list_all (\<lambda>kv. jsonValue (snd kv)) kvs)"


definition serialized :: "js_value \<Rightarrow> string" where
  "serialized v = (case stringifyValue v of None \<Rightarrow> ''null'' | Some t \<Rightarrow> t)"




section \<open>The kinds of the specification\<close>

text \<open>
  The specification's Value Kind, by the shape of the value: a number, a boolean, a
  string, an array or a plain object. Null and undefined have none of the five kinds.
\<close>

datatype value_kind = NumberKind | BooleanKind | StringKind | ArrayKind | PlainObjectKind

fun spec_kindOf :: "js_value \<Rightarrow> value_kind option" where
  "spec_kindOf JUndefined = None"
| "spec_kindOf JNull = None"
| "spec_kindOf (JBool b) = Some BooleanKind"
| "spec_kindOf (JNum n) = Some NumberKind"
| "spec_kindOf JNaN = Some NumberKind"
| "spec_kindOf (JStr s) = Some StringKind"
| "spec_kindOf (JArr xs) = Some ArrayKind"
| "spec_kindOf (JObj kvs) = Some PlainObjectKind"





definition emptyComponent :: component where
  "emptyComponent =
     \<lparr> attributes = Map.empty, ownProperties = Map.empty, authorAccessors = {},
       privateFields = Map.empty, calls = [] \<rparr>"


section \<open>Properties of the name normalizer\<close>

lemma insertWhere_Nil: "insertWhere P [] = []"
  by (simp add: insertWhere_def)

lemma insertWhere_Cons:
  "insertWhere P (c # cs) =
     (if P 0 then [CHR ''-'', c] else [c]) @ insertWhere (\<lambda>i. P (Suc i)) cs"
proof -
  have "[0..<length (c # cs)] = 0 # map Suc [0..<length cs]"
    by (simp add: upt_conv_Cons map_Suc_upt del: upt_Suc)
  then have "insertWhere P (c # cs)
      = concat (map (\<lambda>i. if P i then [CHR ''-'', (c # cs) ! i] else [(c # cs) ! i])
          (0 # map Suc [0..<length cs]))"
    unfolding insertWhere_def by (rule arg_cong)
  also have "\<dots> = (if P 0 then [CHR ''-'', c] else [c]) @ insertWhere (\<lambda>i. P (Suc i)) cs"
    by (simp add: insertWhere_def comp_def cong: if_cong)
  finally show ?thesis .
qed

lemma atBoundary_Suc: "(\<lambda>i. atBoundary (c # cs) (Suc i)) = atBoundary cs"
  by (rule ext) (simp add: atBoundary_def)

lemma replaceBoundary_insertWhere: "replaceBoundary s = insertWhere (atBoundary s) s"
proof (induction s rule: replaceBoundary.induct)
  case 1
  show ?case by (simp add: insertWhere_Nil)
next
  case (2 c)
  show ?case by (simp add: insertWhere_Cons insertWhere_Nil atBoundary_def)
next
  case (3 c d cs)
  have lower_not_upper: "\<not> (isUpperAZ d \<and> isLowerAZ d)"
    by (auto simp: isUpperAZ_def isLowerAZ_def)
  show ?case
  proof (cases "isUpperAZ c \<and> isLowerAZ d")
    case True
    then have nd: "\<not> atBoundary (d # cs) 0"
      using lower_not_upper by (auto simp: atBoundary_def)
    have "insertWhere (atBoundary (c # d # cs)) (c # d # cs)
          = [CHR ''-'', c] @ insertWhere (atBoundary (d # cs)) (d # cs)"
    proof -
      have "atBoundary (c # d # cs) 0" using True by (simp add: atBoundary_def)
      then show ?thesis by (simp add: insertWhere_Cons [of _ c] atBoundary_Suc)
    qed
    also have "\<dots> = [CHR ''-'', c, d] @ insertWhere (atBoundary cs) cs"
      using nd by (simp add: insertWhere_Cons [of _ d] atBoundary_Suc)
    finally show ?thesis using True 3 by simp
  next
    case False
    then have "\<not> atBoundary (c # d # cs) 0"
      by (auto simp: atBoundary_def)
    then have "insertWhere (atBoundary (c # d # cs)) (c # d # cs)
          = [c] @ insertWhere (atBoundary (d # cs)) (d # cs)"
      by (simp add: insertWhere_Cons [of _ c] atBoundary_Suc)
    then show ?thesis using False 3 by auto
  qed
qed

text \<open>
  Claim C5, as stated: the normalizer puts a separator before every run of capitals that
  is followed by the end of the string or by a lower-case letter, and never between the
  letters of such a run. In \<^verbatim>\<open>URLBar\<close> the run is \<^verbatim>\<open>URLB\<close>; the code puts the separator
  inside it, before its last letter, and returns \<^verbatim>\<open>url-bar\<close>, where the wording gives
  \<^verbatim>\<open>urlbar\<close>. In \<^verbatim>\<open>myURL\<close> the run \<^verbatim>\<open>URL\<close> ends the string; the code returns
  \<^verbatim>\<open>myur-l\<close>, where the wording gives \<^verbatim>\<open>my-url\<close>.
\<close>

theorem toKebabCase_not_before_run:
  "toKebabCase ''URLBar'' = ''url-bar'' \<and> spec_toKebabCase ''URLBar'' = ''urlbar''
   \<and> toKebabCase ''URLBar'' \<noteq> spec_toKebabCase ''URLBar''
   \<and> toKebabCase ''myURL'' = ''myur-l'' \<and> spec_toKebabCase ''myURL'' = ''my-url''
   \<and> toKebabCase ''myURL'' \<noteq> spec_toKebabCase ''myURL''"
  by code_simp

text \<open>
  Claim C5, amended: for every input string the normalizer inserts a separator before
  every capital letter that is directly followed by the end of the string or by a
  lower-case letter (the last letter of a run of capitals, so the letters before it stay
  together), then replaces each pair of adjacent separators by one in a single pass,
  removes one leading separator or else one trailing separator, and lower-cases the
  result.
\<close>

theorem toKebabCase_by_position:
  "toKebabCase key
     = toLowerCase (replaceEdge (replaceDouble (insertWhere (atBoundary key) key)))"
  by (simp add: toKebabCase_def replaceBoundary_insertWhere)

text \<open>
  Claim C6: the normalizer maps \<^verbatim>\<open>fooBarBazBing\<close> to \<^verbatim>\<open>foo-bar-baz-bing\<close>, \<^verbatim>\<open>URLBar\<close> to
  \<^verbatim>\<open>url-bar\<close> and \<^verbatim>\<open>ClipX\<close> to \<^verbatim>\<open>clip-x\<close>, and every input whose normalized form
  holds no separator, such as \<^verbatim>\<open>foo\<close>, fails with the naming error.
\<close>

theorem mustKebabCase_examples_and_failure:
  "mustKebabCase ''fooBarBazBing'' = Inr ''foo-bar-baz-bing''
   \<and> mustKebabCase ''URLBar'' = Inr ''url-bar''
   \<and> mustKebabCase ''ClipX'' = Inr ''clip-x''
   \<and> (\<forall>key. CHR ''-'' \<notin> set (toKebabCase key) \<longrightarrow> mustKebabCase key = Inl NamingError)
   \<and> (\<forall>key. CHR ''-'' \<in> set (toKebabCase key) \<longrightarrow> mustKebabCase key = Inr (toKebabCase key))"
proof -
  have "mustKebabCase ''fooBarBazBing'' = Inr ''foo-bar-baz-bing''" by code_simp
  moreover have "mustKebabCase ''URLBar'' = Inr ''url-bar''" by code_simp
  moreover have "mustKebabCase ''ClipX'' = Inr ''clip-x''" by code_simp
  ultimately show ?thesis by (simp add: mustKebabCase_def Let_def)
qed

theorem mustKebabCase_examples_and_failure_witness:
  "CHR ''-'' \<notin> set (toKebabCase ''foo'') \<and> mustKebabCase ''foo'' = Inl NamingError
   \<and> CHR ''-'' \<in> set (toKebabCase ''fooBar'') \<and> mustKebabCase ''fooBar'' = Inr ''foo-bar''"
proof -
  have a: "CHR ''-'' \<notin> set (toKebabCase ''foo'')" by code_simp
  have b: "CHR ''-'' \<in> set (toKebabCase ''fooBar'')" by code_simp
  have c: "toKebabCase ''fooBar'' = ''foo-bar''" by code_simp
  from mustKebabCase_examples_and_failure a b c show ?thesis by simp
qed

section \<open>Decimal text and JSON: writing and reading back\<close>

















lemma char_eq_code: "(c = d) = ((of_char c :: nat) = of_char d)"
  by simp



lemma hexDigit_not_quote: "d < 16 \<Longrightarrow> hexDigit d \<noteq> CHR 0x22 \<and> hexDigit d \<noteq> CHR 0x5C"
  by (cases "d < 10") (auto simp: hexDigit_def char_eq_code)





lemma stringifyValue_json: "jsonValue v \<Longrightarrow> stringifyValue v = Some (serialized v)"
  by (cases v) (simp_all add: serialized_def)





























lemma JSON_stringify_json: "jsonValue v \<Longrightarrow> JSON_stringify v = JStr (serialized v)"
  by (simp add: JSON_stringify_def stringifyValue_json)









section \<open>The fuel of the JSON reader\<close>

lemma length_skipWs: "length (skipWs s) \<le> length s"
  by (simp add: skipWs_def length_dropWhile_le)

lemma skipWs_Cons_length: "skipWs s = c # t \<Longrightarrow> length t < length s"
  using length_skipWs [of s] by simp

lemma stripPrefix_length: "stripPrefix p s = Some r \<Longrightarrow> length r \<le> length s"
  by (auto simp: stripPrefix_def split: if_splits)

lemma consChar_Some: "consChar c res = Some (s, r) \<Longrightarrow> \<exists>s'. res = Some (s', r) \<and> s = c # s'"
  by (cases res) (auto simp: consChar_def)

lemma parseChars_length: "parseChars s = Some (str, r) \<Longrightarrow> length r < length s"
proof (induction "length s" arbitrary: s str rule: less_induct)
  case less
  show ?case
  proof (cases s)
    case Nil
    then show ?thesis using less.prems by simp
  next
    case (Cons c cs)
    show ?thesis
    proof (cases "c = CHR 0x22")
      case True
      then show ?thesis using less.prems Cons by simp
    next
      case nq: False
      show ?thesis
      proof (cases "c = CHR 0x5C")
        case False
        then have "consChar c (parseChars cs) = Some (str, r)"
          using less.prems nq Cons by (simp split: if_splits)
        then obtain s' where "parseChars cs = Some (s', r)" by (auto dest: consChar_Some)
        then have "length r < length cs" using less.hyps [of cs s'] Cons by simp
        then show ?thesis using Cons by simp
      next
        case True
        then obtain e t where cs: "cs = e # t" using less.prems nq Cons by (cases cs) auto
        show ?thesis
        proof (cases "e = CHR ''u''")
          case False
          then have "\<exists>ch. consChar ch (parseChars t) = Some (str, r)"
            using less.prems nq True cs Cons by (auto split: option.splits)
          then obtain s' where "parseChars t = Some (s', r)" by (auto dest: consChar_Some)
          then have "length r < length t" using less.hyps [of t s'] Cons cs by simp
          then show ?thesis using Cons cs by simp
        next
          case u: True
          then obtain h1 h2 h3 h4 t' where t: "t = h1 # h2 # h3 # h4 # t'"
            using less.prems nq True cs Cons by (auto split: list.splits)
          then have "\<exists>ch. consChar ch (parseChars t') = Some (str, r)"
            using less.prems nq True cs u Cons by (auto split: option.splits if_splits)
          then obtain s' where "parseChars t' = Some (s', r)" by (auto dest: consChar_Some)
          then have "length r < length t'" using less.hyps [of t' s'] Cons cs t by simp
          then show ?thesis using Cons cs t by simp
        qed
      qed
    qed
  qed
qed

lemma parseNumber_length: "parseNumber s = Some (v, r) \<Longrightarrow> length r < length s"
proof -
  assume a: "parseNumber s = Some (v, r)"
  define t where "t = (if s \<noteq> [] \<and> hd s = CHR ''-'' then tl s else s)"
  have r: "r = dropWhile isDigit t" and ne: "takeWhile isDigit t \<noteq> []"
    using a by (auto simp: parseNumber_def Let_def t_def split: if_splits)
  have "length (takeWhile isDigit t) + length (dropWhile isDigit t) = length t"
    by (metis length_append takeWhile_dropWhile_id)
  then have "length r < length t" using r ne by (cases "takeWhile isDigit t") auto
  moreover have "length t \<le> length s" by (simp add: t_def)
  ultimately show ?thesis by simp
qed

lemma parseValue_array_branch:
  assumes "skipWs s = CHR ''['' # t" "\<And>u. skipWs t \<noteq> CHR '']'' # u"
  shows "parseValue (Suc m) s = map_option (\<lambda>(vs, r''). (JArr vs, r'')) (parseElements m t)"
proof (cases "skipWs t")
  case Nil
  have "parseElements m t = None"
  proof (cases m)
    case 0
    then show ?thesis by simp
  next
    case (Suc k)
    have "parseValue k t = None" using Nil by (cases k) simp_all
    then show ?thesis using Suc by simp
  qed
  then show ?thesis using assms(1) Nil by simp
next
  case (Cons d t')
  then have "d \<noteq> CHR '']''" using assms(2) by auto
  then show ?thesis using assms(1) Cons by simp
qed

lemma parseValue_object_branch:
  assumes "skipWs s = CHR ''{'' # t" "\<And>u. skipWs t \<noteq> CHR ''}'' # u"
  shows "parseValue (Suc m) s = map_option (\<lambda>(kvs, r''). (JObj (buildObject kvs), r'')) (parseMembers m t)"
proof (cases "skipWs t")
  case Nil
  have "parseMembers m t = None" using Nil by (cases m) simp_all
  then show ?thesis using assms(1) Nil by simp
next
  case (Cons d t')
  then have "d \<noteq> CHR ''}''" using assms(2) by auto
  then show ?thesis using assms(1) Cons by simp
qed

lemma parseValue_fuel_cong:
  assumes "\<And>t. skipWs s = CHR ''['' # t \<Longrightarrow> (\<And>u. skipWs t \<noteq> CHR '']'' # u)
             \<Longrightarrow> parseElements m t = parseElements n t"
    and "\<And>t. skipWs s = CHR ''{'' # t \<Longrightarrow> (\<And>u. skipWs t \<noteq> CHR ''}'' # u)
             \<Longrightarrow> parseMembers m t = parseMembers n t"
  shows "parseValue (Suc m) s = parseValue (Suc n) s"
proof (cases "skipWs s")
  case Nil
  then show ?thesis by simp
next
  case (Cons c t)
  consider "c = CHR ''[''" "\<And>u. skipWs t \<noteq> CHR '']'' # u"
    | "c = CHR ''[''" "\<exists>u. skipWs t = CHR '']'' # u"
    | "c = CHR ''{''" "\<And>u. skipWs t \<noteq> CHR ''}'' # u"
    | "c = CHR ''{''" "\<exists>u. skipWs t = CHR ''}'' # u"
    | "c \<noteq> CHR ''[''" "c \<noteq> CHR ''{''"
    by blast
  then show ?thesis
  proof cases
    case 1
    then show ?thesis
      using parseValue_array_branch [of s t] assms(1) [of t] Cons by simp
  next
    case 2
    then show ?thesis using Cons by auto
  next
    case 3
    then show ?thesis
      using parseValue_object_branch [of s t] assms(2) [of t] Cons by simp
  next
    case 4
    then show ?thesis using Cons by auto
  next
    case 5
    then show ?thesis using Cons by simp
  qed
qed

lemma parseElements_fuel_cong:
  assumes "parseValue m s = parseValue n s"
    and "\<And>v r r'. parseValue m s = Some (v, r) \<Longrightarrow> skipWs r = CHR '','' # r'
           \<Longrightarrow> parseElements m r' = parseElements n r'"
  shows "parseElements (Suc m) s = parseElements (Suc n) s"
proof (cases "parseValue m s")
  case None
  then show ?thesis using assms(1) by simp
next
  case (Some a)
  obtain v r where a: "a = (v, r)" by (cases a)
  have pm: "parseValue m s = Some (v, r)" using Some a by simp
  have pn: "parseValue n s = Some (v, r)" using assms(1) pm by simp
  show ?thesis
  proof (cases "skipWs r")
    case Nil
    then show ?thesis using pm pn by simp
  next
    case (Cons c r')
    show ?thesis
    proof (cases "c = CHR '',''")
      case True
      then have "parseElements m r' = parseElements n r'"
        using assms(2) [of v r r'] pm Cons by simp
      then show ?thesis using pm pn Cons True by simp
    next
      case False
      then show ?thesis using pm pn Cons by simp
    qed
  qed
qed

lemma parseMembers_fuel_cong:
  assumes "\<And>r k r1 r2. skipWs s = CHR 0x22 # r \<Longrightarrow> parseChars r = Some (k, r1)
             \<Longrightarrow> skipWs r1 = CHR '':'' # r2 \<Longrightarrow> parseValue m r2 = parseValue n r2"
    and "\<And>r k r1 r2 v r3 r4. skipWs s = CHR 0x22 # r \<Longrightarrow> parseChars r = Some (k, r1)
             \<Longrightarrow> skipWs r1 = CHR '':'' # r2 \<Longrightarrow> parseValue m r2 = Some (v, r3)
             \<Longrightarrow> skipWs r3 = CHR '','' # r4 \<Longrightarrow> parseMembers m r4 = parseMembers n r4"
  shows "parseMembers (Suc m) s = parseMembers (Suc n) s"
proof (cases "skipWs s")
  case Nil
  then show ?thesis by simp
next
  case (Cons q r)
  show ?thesis
  proof (cases "q = CHR 0x22")
    case False
    then show ?thesis using Cons by simp
  next
    case q: True
    show ?thesis
    proof (cases "parseChars r")
      case None
      then show ?thesis using Cons q by simp
    next
      case (Some a)
      obtain k r1 where a: "a = (k, r1)" by (cases a)
      show ?thesis
      proof (cases "skipWs r1")
        case Nil
        then show ?thesis using Cons q Some a by simp
      next
        case c2: (Cons colon r2)
        show ?thesis
        proof (cases "colon = CHR '':''")
          case False
          then show ?thesis using Cons q Some a c2 by simp
        next
          case colon: True
          have pv: "parseValue m r2 = parseValue n r2"
            using assms(1) [of r k r1 r2] Cons q Some a c2 colon by simp
          show ?thesis
          proof (cases "parseValue m r2")
            case None
            then show ?thesis using Cons q Some a c2 colon pv by simp
          next
            case sv: (Some b)
            obtain v r3 where b: "b = (v, r3)" by (cases b)
            have pm: "parseValue m r2 = Some (v, r3)" using sv b by simp
            have pn: "parseValue n r2 = Some (v, r3)" using pv pm by simp
            show ?thesis
            proof (cases "skipWs r3")
              case Nil
              then show ?thesis using Cons q Some a c2 colon pm pn by simp
            next
              case c3: (Cons c r4)
              show ?thesis
              proof (cases "c = CHR '',''")
                case True
                then have "parseMembers m r4 = parseMembers n r4"
                  using assms(2) [of r k r1 r2 v r3 r4] Cons q Some a c2 colon pm c3 by simp
                then show ?thesis using Cons q Some a c2 colon pm pn c3 True by simp
              next
                case False
                then show ?thesis using Cons q Some a c2 colon pm pn c3 by simp
              qed
            qed
          qed
        qed
      qed
    qed
  qed
qed

lemma parseValue_consumes_step:
  assumes el: "\<And>t vs r. parseElements n t = Some (vs, r) \<Longrightarrow> length r < length t"
    and mem: "\<And>t kvs r. parseMembers n t = Some (kvs, r) \<Longrightarrow> length r < length t"
    and p: "parseValue (Suc n) s = Some (v, r)"
  shows "length r < length s"
proof (cases "skipWs s")
  case Nil
  then show ?thesis using p by simp
next
  case (Cons c t)
  have t: "length t < length s" using Cons by (rule skipWs_Cons_length)
  have ct: "length (c # t) \<le> length s" using t by simp
  consider "c = CHR ''[''" | "c = CHR ''{''" | "c \<noteq> CHR ''[''" "c \<noteq> CHR ''{''" by blast
  then show ?thesis
  proof cases
    case 1
    show ?thesis
    proof (cases "skipWs t")
      case Nil
      then show ?thesis using p Cons 1 by simp
    next
      case d: (Cons d t')
      have t': "length t' < length t" using d by (rule skipWs_Cons_length)
      show ?thesis
      proof (cases "d = CHR '']''")
        case True
        then show ?thesis using p Cons 1 d t t' by simp
      next
        case False
        then obtain vs where "parseElements n t = Some (vs, r)"
          using p Cons 1 d by auto
        then show ?thesis using el [of t vs r] t by simp
      qed
    qed
  next
    case 2
    show ?thesis
    proof (cases "skipWs t")
      case Nil
      then show ?thesis using p Cons 2 by simp
    next
      case d: (Cons d t')
      have t': "length t' < length t" using d by (rule skipWs_Cons_length)
      show ?thesis
      proof (cases "d = CHR ''}''")
        case True
        then show ?thesis using p Cons 2 d t t' by simp
      next
        case False
        then obtain kvs where "parseMembers n t = Some (kvs, r)"
          using p Cons 2 d by auto
        then show ?thesis using mem [of t kvs r] t by simp
      qed
    qed
  next
    case 3
    let ?rhs = "(if c = CHR ''n'' then map_option (Pair JNull) (stripPrefix ''ull'' t)
         else if c = CHR ''t'' then map_option (Pair (JBool True)) (stripPrefix ''rue'' t)
         else if c = CHR ''f'' then map_option (Pair (JBool False)) (stripPrefix ''alse'' t)
         else if c = CHR 0x22 then map_option (\<lambda>(str, r'). (JStr str, r')) (parseChars t)
         else if c = CHR ''-'' \<or> isDigit c then parseNumber (c # t)
         else None)"
    have eq: "parseValue (Suc n) s =
        (if c = CHR ''n'' then map_option (Pair JNull) (stripPrefix ''ull'' t)
         else if c = CHR ''t'' then map_option (Pair (JBool True)) (stripPrefix ''rue'' t)
         else if c = CHR ''f'' then map_option (Pair (JBool False)) (stripPrefix ''alse'' t)
         else if c = CHR 0x22 then map_option (\<lambda>(str, r'). (JStr str, r')) (parseChars t)
         else if c = CHR ''-'' \<or> isDigit c then parseNumber (c # t)
         else None)"
      using Cons 3 by simp
    have q: "?rhs = Some (v, r)" using p unfolding eq .
    consider "c = CHR ''n''" | "c \<noteq> CHR ''n''" "c = CHR ''t''"
      | "c \<noteq> CHR ''n''" "c \<noteq> CHR ''t''" "c = CHR ''f''"
      | "c \<noteq> CHR ''n''" "c \<noteq> CHR ''t''" "c \<noteq> CHR ''f''" "c = CHR 0x22"
      | "c \<noteq> CHR ''n''" "c \<noteq> CHR ''t''" "c \<noteq> CHR ''f''" "c \<noteq> CHR 0x22"
      by blast
    then show ?thesis
    proof cases
      case 1
      then have "stripPrefix ''ull'' t = Some r" using q by auto
      then show ?thesis using stripPrefix_length [of "''ull''" t r] t by simp
    next
      case 2
      then have "stripPrefix ''rue'' t = Some r" using q by auto
      then show ?thesis using stripPrefix_length [of "''rue''" t r] t by simp
    next
      case 3
      then have "stripPrefix ''alse'' t = Some r" using q by auto
      then show ?thesis using stripPrefix_length [of "''alse''" t r] t by simp
    next
      case 4
      then obtain str where "parseChars t = Some (str, r)" using q by auto
      then show ?thesis using parseChars_length [of t str r] t by simp
    next
      case 5
      then have "parseNumber (c # t) = Some (v, r)" using q by (simp split: if_splits)
      then show ?thesis using parseNumber_length [of "c # t" v r] ct by simp
    qed
  qed
qed

lemma parseElements_consumes_step:
  assumes pv: "\<And>t v r. parseValue n t = Some (v, r) \<Longrightarrow> length r < length t"
    and el: "\<And>t vs r. parseElements n t = Some (vs, r) \<Longrightarrow> length r < length t"
    and p: "parseElements (Suc n) s = Some (vs, r)"
  shows "length r < length s"
proof -
  obtain v r1 where v: "parseValue n s = Some (v, r1)"
    using p by (cases "parseValue n s") auto
  have r1: "length r1 < length s" using pv [OF v] .
  obtain c r' where c: "skipWs r1 = c # r'"
    using p v by (cases "skipWs r1") auto
  have r': "length r' < length r1" using c by (rule skipWs_Cons_length)
  show ?thesis
  proof (cases "c = CHR '',''")
    case True
    then obtain vs' where "parseElements n r' = Some (vs', r)"
      using p v c by auto
    then show ?thesis using el [of r' vs' r] r1 r' by simp
  next
    case False
    then have "r = r'" using p v c by (auto split: if_splits)
    then show ?thesis using r1 r' by simp
  qed
qed

lemma parseMembers_consumes_step:
  assumes pv: "\<And>t v r. parseValue n t = Some (v, r) \<Longrightarrow> length r < length t"
    and mem: "\<And>t kvs r. parseMembers n t = Some (kvs, r) \<Longrightarrow> length r < length t"
    and p: "parseMembers (Suc n) s = Some (kvs, r)"
  shows "length r < length s"
proof -
  obtain q t where q: "skipWs s = q # t" using p by (cases "skipWs s") auto
  have qq: "q = CHR 0x22" using p q by (auto split: if_splits)
  obtain k r1 where k: "parseChars t = Some (k, r1)"
    using p q qq by (cases "parseChars t") auto
  obtain colon r2 where c2: "skipWs r1 = colon # r2"
    using p q qq k by (cases "skipWs r1") auto
  have colon: "colon = CHR '':''" using p q qq k c2 by (auto split: if_splits)
  obtain v r3 where v: "parseValue n r2 = Some (v, r3)"
    using p q qq k c2 colon by (cases "parseValue n r2") auto
  obtain c r4 where c3: "skipWs r3 = c # r4"
    using p q qq k c2 colon v by (cases "skipWs r3") auto
  have len: "length r4 < length s"
    using skipWs_Cons_length [OF q] parseChars_length [OF k] skipWs_Cons_length [OF c2]
      pv [OF v] skipWs_Cons_length [OF c3] by simp
  show ?thesis
  proof (cases "c = CHR '',''")
    case True
    then obtain kvs' where "parseMembers n r4 = Some (kvs', r)"
      using p q qq k c2 colon v c3 by auto
    then show ?thesis using mem [of r4 kvs' r] len by simp
  next
    case False
    then have "r = r4" using p q qq k c2 colon v c3 by (auto split: if_splits)
    then show ?thesis using len by simp
  qed
qed

lemma parse_consumes:
  "(\<forall>s v r. parseValue n s = Some (v, r) \<longrightarrow> length r < length s)
   \<and> (\<forall>s vs r. parseElements n s = Some (vs, r) \<longrightarrow> length r < length s)
   \<and> (\<forall>s kvs r. parseMembers n s = Some (kvs, r) \<longrightarrow> length r < length s)"
proof (induction n)
  case 0
  show ?case by simp
next
  case (Suc n)
  show ?case
    using Suc parseValue_consumes_step [of n] parseElements_consumes_step [of n]
      parseMembers_consumes_step [of n]
    by blast
qed

lemmas parseValue_consumes = parse_consumes [THEN conjunct1, rule_format]
lemmas parseElements_consumes = parse_consumes [THEN conjunct2, THEN conjunct1, rule_format]
lemmas parseMembers_consumes = parse_consumes [THEN conjunct2, THEN conjunct2, rule_format]

lemma parseValue_enough_step:
  assumes el: "\<And>n t vs r. parseElements m t = Some (vs, r) \<Longrightarrow> length t \<le> n + length r
                 \<Longrightarrow> parseElements n t = Some (vs, r)"
    and mem: "\<And>n t kvs r. parseMembers m t = Some (kvs, r) \<Longrightarrow> length t \<le> n + length r
                 \<Longrightarrow> parseMembers n t = Some (kvs, r)"
    and p: "parseValue (Suc m) s = Some (v, r)"
    and b: "length s \<le> n + length r"
  shows "parseValue n s = Some (v, r)"
proof -
  have "length r < length s" using p by (rule parseValue_consumes)
  then obtain n' where n: "n = Suc n'" using b by (cases n) auto
  have "parseValue (Suc n') s = parseValue (Suc m) s"
  proof (rule parseValue_fuel_cong)
    fix t
    assume sk: "skipWs s = CHR ''['' # t" and no: "\<And>u. skipWs t \<noteq> CHR '']'' # u"
    have "parseValue (Suc m) s = map_option (\<lambda>(vs, r''). (JArr vs, r'')) (parseElements m t)"
      using sk no by (rule parseValue_array_branch)
    then obtain vs where vs: "parseElements m t = Some (vs, r)"
      using p by (cases "parseElements m t") auto
    have "length t < length s" using sk by (rule skipWs_Cons_length)
    then have "length t \<le> n' + length r" using b n by simp
    then show "parseElements n' t = parseElements m t" using el [OF vs] vs by simp
  next
    fix t
    assume sk: "skipWs s = CHR ''{'' # t" and no: "\<And>u. skipWs t \<noteq> CHR ''}'' # u"
    have "parseValue (Suc m) s
          = map_option (\<lambda>(kvs, r''). (JObj (buildObject kvs), r'')) (parseMembers m t)"
      using sk no by (rule parseValue_object_branch)
    then obtain kvs where kvs: "parseMembers m t = Some (kvs, r)"
      using p by (cases "parseMembers m t") auto
    have "length t < length s" using sk by (rule skipWs_Cons_length)
    then have "length t \<le> n' + length r" using b n by simp
    then show "parseMembers n' t = parseMembers m t" using mem [OF kvs] kvs by simp
  qed
  then show ?thesis using p n by simp
qed

lemma parseElements_enough_step:
  assumes pv: "\<And>n t v r. parseValue m t = Some (v, r) \<Longrightarrow> length t \<le> n + length r
                 \<Longrightarrow> parseValue n t = Some (v, r)"
    and el: "\<And>n t vs r. parseElements m t = Some (vs, r) \<Longrightarrow> length t \<le> n + length r
                 \<Longrightarrow> parseElements n t = Some (vs, r)"
    and p: "parseElements (Suc m) s = Some (vs, r)"
    and b: "length s \<le> n + length r"
  shows "parseElements n s = Some (vs, r)"
proof -
  have "length r < length s" using p by (rule parseElements_consumes)
  then obtain n' where n: "n = Suc n'" using b by (cases n) auto
  obtain v r1 where v: "parseValue m s = Some (v, r1)"
    using p by (cases "parseValue m s") auto
  have r1: "length r1 < length s" using v by (rule parseValue_consumes)
  obtain c r' where c: "skipWs r1 = c # r'"
    using p v by (cases "skipWs r1") auto
  have r': "length r' < length r1" using c by (rule skipWs_Cons_length)
  have rr': "length r \<le> length r'"
  proof (cases "c = CHR '',''")
    case True
    then obtain vs' where "parseElements m r' = Some (vs', r)" using p v c by auto
    then show ?thesis using parseElements_consumes [of m r' vs' r] by simp
  next
    case False
    then have "r = r'" using p v c by (auto split: if_splits)
    then show ?thesis by simp
  qed
  have vn: "parseValue n' s = Some (v, r1)"
    using pv [OF v, of n'] b n r' rr' by simp
  have "parseElements (Suc n') s = parseElements (Suc m) s"
  proof (rule parseElements_fuel_cong)
    show "parseValue n' s = parseValue m s" using v vn by simp
  next
    fix v0 r0 r0'
    assume a: "parseValue n' s = Some (v0, r0)" and k: "skipWs r0 = CHR '','' # r0'"
    have e: "r0 = r1" "r0' = r'" "c = CHR '',''" using a vn k c by simp_all
    obtain vs' where vs': "parseElements m r' = Some (vs', r)" using p v c e by auto
    have "length r' \<le> n' + length r"
      using parseElements_consumes [OF vs'] r' r1 b n by simp
    then show "parseElements n' r0' = parseElements m r0'" using el [OF vs'] vs' e by simp
  qed
  then show ?thesis using p n by simp
qed

lemma parseMembers_enough_step:
  assumes pv: "\<And>n t v r. parseValue m t = Some (v, r) \<Longrightarrow> length t \<le> n + length r
                 \<Longrightarrow> parseValue n t = Some (v, r)"
    and mem: "\<And>n t kvs r. parseMembers m t = Some (kvs, r) \<Longrightarrow> length t \<le> n + length r
                 \<Longrightarrow> parseMembers n t = Some (kvs, r)"
    and p: "parseMembers (Suc m) s = Some (kvs, r)"
    and b: "length s \<le> n + length r"
  shows "parseMembers n s = Some (kvs, r)"
proof -
  have "length r < length s" using p by (rule parseMembers_consumes)
  then obtain n' where n: "n = Suc n'" using b by (cases n) auto
  obtain q t where q: "skipWs s = q # t" using p by (cases "skipWs s") auto
  have qq: "q = CHR 0x22" using p q by (auto split: if_splits)
  obtain k r1 where k: "parseChars t = Some (k, r1)"
    using p q qq by (cases "parseChars t") auto
  obtain colon r2 where c2: "skipWs r1 = colon # r2"
    using p q qq k by (cases "skipWs r1") auto
  have colon: "colon = CHR '':''" using p q qq k c2 by (auto split: if_splits)
  obtain v r3 where v: "parseValue m r2 = Some (v, r3)"
    using p q qq k c2 colon by (cases "parseValue m r2") auto
  obtain c r4 where c3: "skipWs r3 = c # r4"
    using p q qq k c2 colon v by (cases "skipWs r3") auto
  have l2: "length r2 + 2 \<le> length s"
    using skipWs_Cons_length [OF q] parseChars_length [OF k] skipWs_Cons_length [OF c2] by simp
  have l4: "length r4 < length r3" using c3 by (rule skipWs_Cons_length)
  have rr4: "length r \<le> length r4"
  proof (cases "c = CHR '',''")
    case True
    then obtain kvs' where "parseMembers m r4 = Some (kvs', r)"
      using p q qq k c2 colon v c3 by auto
    then show ?thesis using parseMembers_consumes [of m r4 kvs' r] by simp
  next
    case False
    then have "r = r4" using p q qq k c2 colon v c3 by (auto split: if_splits)
    then show ?thesis by simp
  qed
  have vn: "parseValue n' r2 = Some (v, r3)"
    using pv [OF v, of n'] b n l2 l4 rr4 by simp
  have "parseMembers (Suc n') s = parseMembers (Suc m) s"
  proof (rule parseMembers_fuel_cong)
    fix t0 k0 r10 r20
    assume "skipWs s = CHR 0x22 # t0" "parseChars t0 = Some (k0, r10)" "skipWs r10 = CHR '':'' # r20"
    then have "r20 = r2" using q k c2 by simp
    then show "parseValue n' r20 = parseValue m r20" using v vn by simp
  next
    fix t0 k0 r10 r20 v0 r30 r40
    assume "skipWs s = CHR 0x22 # t0" "parseChars t0 = Some (k0, r10)" "skipWs r10 = CHR '':'' # r20"
      and a: "parseValue n' r20 = Some (v0, r30)" and cm: "skipWs r30 = CHR '','' # r40"
    then have e0: "r20 = r2" using q k c2 by simp
    then have e: "r30 = r3" "r40 = r4" "c = CHR '',''" using a vn cm c3 by simp_all
    obtain kvs' where kvs': "parseMembers m r4 = Some (kvs', r)"
      using p q qq k c2 colon v c3 e by auto
    have "length r3 < length r2" using v by (rule parseValue_consumes)
    then have "length r4 \<le> n' + length r" using l2 l4 b n by simp
    then show "parseMembers n' r40 = parseMembers m r40" using mem [OF kvs'] kvs' e by simp
  qed
  then show ?thesis using p n by simp
qed

lemma parse_enough:
  "(\<forall>n s v r. parseValue m s = Some (v, r) \<longrightarrow> length s \<le> n + length r
        \<longrightarrow> parseValue n s = Some (v, r))
   \<and> (\<forall>n s vs r. parseElements m s = Some (vs, r) \<longrightarrow> length s \<le> n + length r
        \<longrightarrow> parseElements n s = Some (vs, r))
   \<and> (\<forall>n s kvs r. parseMembers m s = Some (kvs, r) \<longrightarrow> length s \<le> n + length r
        \<longrightarrow> parseMembers n s = Some (kvs, r))"
proof (induction m)
  case 0
  show ?case by simp
next
  case (Suc m)
  have pv: "\<And>n t v r. parseValue m t = Some (v, r) \<Longrightarrow> length t \<le> n + length r
                 \<Longrightarrow> parseValue n t = Some (v, r)"
    and el: "\<And>n t vs r. parseElements m t = Some (vs, r) \<Longrightarrow> length t \<le> n + length r
                 \<Longrightarrow> parseElements n t = Some (vs, r)"
    and mem: "\<And>n t kvs r. parseMembers m t = Some (kvs, r) \<Longrightarrow> length t \<le> n + length r
                 \<Longrightarrow> parseMembers n t = Some (kvs, r)"
    using Suc by blast+
  show ?case
  proof (intro conjI allI impI)
    fix n s v r
    assume a: "parseValue (Suc m) s = Some (v, r)" "length s \<le> n + length r"
    show "parseValue n s = Some (v, r)"
      by (rule parseValue_enough_step [of m s v r n, OF _ _ a]; (rule el mem; assumption))
  next
    fix n s vs r
    assume a: "parseElements (Suc m) s = Some (vs, r)" "length s \<le> n + length r"
    show "parseElements n s = Some (vs, r)"
      by (rule parseElements_enough_step [of m s vs r n, OF _ _ a]; (rule pv el; assumption))
  next
    fix n s kvs r
    assume a: "parseMembers (Suc m) s = Some (kvs, r)" "length s \<le> n + length r"
    show "parseMembers n s = Some (kvs, r)"
      by (rule parseMembers_enough_step [of m s kvs r n, OF _ _ a]; (rule pv mem; assumption))
  qed
qed

text \<open>
  No text runs out of fuel: with any fuel above the length of the text the reader gives
  what it gives with the fuel of \<open>JSON_parse\<close>.
\<close>

lemma parseValue_fuel_adequate:
  assumes "length s < m"
  shows "parseValue m s = parseValue (Suc (length s)) s"
proof (cases "parseValue m s")
  case (Some a)
  obtain v r where a: "a = (v, r)" by (cases a)
  have "parseValue (Suc (length s)) s = Some (v, r)"
    using parse_enough [of m, THEN conjunct1, rule_format, of s v r "Suc (length s)"] Some a
    by simp
  then show ?thesis using Some a by simp
next
  case None
  show ?thesis
  proof (cases "parseValue (Suc (length s)) s")
    case None
    then show ?thesis using \<open>parseValue m s = None\<close> by simp
  next
    case (Some a)
    obtain v r where a: "a = (v, r)" by (cases a)
    have "parseValue m s = Some (v, r)"
      using parse_enough [of "Suc (length s)", THEN conjunct1, rule_format, of s v r m] Some a assms
      by simp
    then show ?thesis using None by simp
  qed
qed

section \<open>The descriptors against the table of coercions\<close>











section \<open>Round trip and decoding errors\<close>







section \<open>The binder\<close>

















lemma getAccessor_installed:
  "ownProperties c nm = Some (Accessor d)
     \<Longrightarrow> getter (getAccessor c nm) c = readProperty c nm
         \<and> setter (getAccessor c nm) v c = writeProperty c nm v"
  by (simp add: getAccessor_def readProperty_def writeProperty_def)

lemma getAccessor_author:
  "ownProperties c nm = None \<Longrightarrow> nm \<in> authorAccessors c
     \<Longrightarrow> getterCalls (snd (getter (getAccessor c nm) c)) nm = Suc (getterCalls c nm)
         \<and> setterCalls (setter (getAccessor c nm) v c) nm = Suc (setterCalls c nm)"
  by (simp add: getAccessor_def authorGet_def authorSet_def getterCalls_def setterCalls_def)

lemma selectDescriptor_None: "(selectDescriptor v p = None) = (v = JUndefined)"
  by (cases v) (simp_all add: selectDescriptor_def)

lemma bindDeclaration_unsupported:
  "mp nm = Inr p \<Longrightarrow> bindDeclaration mp (nm, JUndefined) c = (Some TypeError, c)"
  by (simp add: bindDeclaration_def selectDescriptor_def)

lemma bindDeclaration_naming_first:
  "mp nm = Inl e \<Longrightarrow> bindDeclaration mp (nm, v) c = (Some e, c)"
  by (simp add: bindDeclaration_def)

section \<open>Defaults, precedence and author accessors\<close>











text \<open>
  Claim C8 says that a declaration whose initial value has none of the five kinds makes
  the binder fail with a type error. Null has none of the five kinds, but its
  \<^verbatim>\<open>typeof\<close> is \<^verbatim>\<open>object\<close> and it is no array, so the binder takes the fifth branch:
  it completes, installs the object accessor, and writes \<^verbatim>\<open>{}\<close> into the attribute.
\<close>

theorem null_is_bound_as_object:
  "spec_kindOf JNull = None
   \<and> fst (initializeAttributable mustKebabCase emptyComponent [(''fooBar'', JNull)]) = None
   \<and> ''fooBar'' \<in> dom (ownProperties
         (snd (initializeAttributable mustKebabCase emptyComponent [(''fooBar'', JNull)])))
   \<and> attributes (snd (initializeAttributable mustKebabCase emptyComponent [(''fooBar'', JNull)]))
         ''foo-bar'' = Some ''{}''
   \<and> fst (readProperty (snd (initializeAttributable mustKebabCase emptyComponent
         [(''fooBar'', JNull)])) ''fooBar'') = Inr (JObj [])"
proof -
  let ?r = "initializeAttributable mustKebabCase emptyComponent [(''fooBar'', JNull)]"
  have a: "fst ?r = None" by code_simp
  have n: "mustKebabCase ''fooBar'' = Inr ''foo-bar''" by code_simp
  have b: "ownProperties (snd ?r) ''fooBar'' \<noteq> None"
    by (simp add: initializeAttributable_def registry_all_def bindDeclaration_def n
        selectDescriptor_def Let_def defineProperty_def split: prod.splits)
  have c: "attributes (snd ?r) ''foo-bar'' = Some ''{}''" by code_simp
  have d: "fst (readProperty (snd ?r) ''fooBar'') = Inr (JObj [])" by code_simp
  show ?thesis using a b c d by (simp add: dom_def)
qed

section \<open>The declaration step\<close>

text \<open>
  Claim C9, as stated: a declaration whose initial value has another constructor than
  the declared type throws at class-declaration time, before any instance exists and
  before anything is recorded. A class declares \<^verbatim>\<open>fooBar = 1\<close> and \<^verbatim>\<open>barBaz = 'x'\<close>, both
  with the type Number. Defining the class throws nothing: each decorator application
  returns an initializer. The type error comes when an instance is constructed and the
  initializer of \<^verbatim>\<open>barBaz\<close> runs, and by then \<^verbatim>\<open>fooBar\<close> is recorded in the registry.
\<close>

theorem mismatch_not_at_declaration:
  "defineClass [numberField ''fooBar'' (JNum 1), numberField ''barBaz'' (JStr ''x'')]
     = Inr [(fieldInitializer \<lparr>options_type = NumberConstructor\<rparr>
               \<lparr>context_kind = ''field'', context_name = ''fooBar''\<rparr>, JNum 1),
            (fieldInitializer \<lparr>options_type = NumberConstructor\<rparr>
               \<lparr>context_kind = ''field'', context_name = ''barBaz''\<rparr>, JStr ''x'')]
   \<and> constructorOf (JStr ''x'') \<noteq> Inr (Builtin NumberConstructor)
   \<and> constructInstance
        [(fieldInitializer \<lparr>options_type = NumberConstructor\<rparr>
               \<lparr>context_kind = ''field'', context_name = ''fooBar''\<rparr>, JNum 1),
         (fieldInitializer \<lparr>options_type = NumberConstructor\<rparr>
               \<lparr>context_kind = ''field'', context_name = ''barBaz''\<rparr>, JStr ''x'')] []
     = (Some TypeError, [(''fooBar'', JNum 1)])"
  by (simp add: numberField_def attribute_def fieldInitializer_def registry_push_def nullish_def)

text \<open>
  Claim C9, amended: for a field declaration with a type token, the declaration step
  itself does not throw; it returns the initializer of the field. When that initializer
  runs on a defined initial value whose constructor is not the declared type, at the
  initialization of the field of an instance, it throws a type error and leaves the
  registry as it was: the declaration is not recorded.
\<close>

theorem mismatch_at_initialization:
  assumes "context_kind context = ''field''"
    and "v \<noteq> JUndefined"
    and "constructorOf v \<noteq> Inr (Builtin (options_type options))"
  shows "attribute options context = Inr (fieldInitializer options context)
         \<and> fieldInitializer options context v metadata = (Some TypeError, metadata)"
  using assms by (simp add: attribute_def fieldInitializer_def)

theorem mismatch_at_initialization_witness:
  "context_kind \<lparr>context_kind = ''field'', context_name = ''barBaz''\<rparr> = ''field''
   \<and> JStr ''x'' \<noteq> JUndefined
   \<and> constructorOf (JStr ''x'') \<noteq> Inr (Builtin (options_type \<lparr>options_type = NumberConstructor\<rparr>))
   \<and> attribute \<lparr>options_type = NumberConstructor\<rparr> \<lparr>context_kind = ''field'', context_name = ''barBaz''\<rparr>
       = Inr (fieldInitializer \<lparr>options_type = NumberConstructor\<rparr>
                \<lparr>context_kind = ''field'', context_name = ''barBaz''\<rparr>)
   \<and> fieldInitializer \<lparr>options_type = NumberConstructor\<rparr>
        \<lparr>context_kind = ''field'', context_name = ''barBaz''\<rparr> (JStr ''x'') [(''fooBar'', JNum 1)]
       = (Some TypeError, [(''fooBar'', JNum 1)])"
  using mismatch_at_initialization
    [of "\<lparr>context_kind = ''field'', context_name = ''barBaz''\<rparr>" "JStr ''x''"
        "\<lparr>options_type = NumberConstructor\<rparr>" "[(''fooBar'', JNum 1)]"]
  by simp

text \<open>
  Claim C10: when the field has no initial value, the initializer receives undefined,
  skips the comparison of constructors whatever the declared type is, and records the
  zero value of the declared type under the name of the field: 0, false, the empty
  string, the empty array, the empty object.
\<close>

theorem undefined_registers_zero_value:
  "(context_kind context = ''field'' \<longrightarrow>
      attribute options context = Inr (fieldInitializer options context))
   \<and> fieldInitializer options context JUndefined metadata
       = (None, registry_push metadata (context_name context) (newValueOf (options_type options)))
   \<and> registry_all (registry_push metadata nm v) = registry_all metadata @ [(nm, v)]
   \<and> newValueOf NumberConstructor = JNum 0
   \<and> newValueOf BooleanConstructor = JBool False
   \<and> newValueOf StringConstructor = JStr []
   \<and> newValueOf ArrayConstructor = JArr []
   \<and> newValueOf ObjectConstructor = JObj []"
  by (simp add: attribute_def fieldInitializer_def nullish_def registry_all_def registry_push_def)

theorem undefined_registers_zero_value_witness:
  "context_kind \<lparr>context_kind = ''field'', context_name = ''fooBar''\<rparr> = ''field''
   \<and> attribute \<lparr>options_type = ArrayConstructor\<rparr> \<lparr>context_kind = ''field'', context_name = ''fooBar''\<rparr>
       = Inr (fieldInitializer \<lparr>options_type = ArrayConstructor\<rparr>
                \<lparr>context_kind = ''field'', context_name = ''fooBar''\<rparr>)
   \<and> fieldInitializer \<lparr>options_type = ArrayConstructor\<rparr>
        \<lparr>context_kind = ''field'', context_name = ''fooBar''\<rparr> JUndefined []
       = (None, [(''fooBar'', JArr [])])"
  using undefined_registers_zero_value
    [of "\<lparr>context_kind = ''field'', context_name = ''fooBar''\<rparr>"
        "\<lparr>options_type = ArrayConstructor\<rparr>" "[]"]
  by (simp add: registry_push_def)

end
